theory Spec2Isabelle
  imports Complex_Main
begin

section \<open>Scroll-driven camera timeline: data model\<close>

text \<open>
  JavaScript numbers are modelled as real numbers: every constant of the scene
  configuration is a short decimal, and the comparisons of the controller compare a
  progress value with those constants.
\<close>

type_synonym Vector3Tuple = "real \<times> real \<times> real"
type_synonym EulerTuple = "real \<times> real \<times> real"

text \<open>\<^verbatim>\<open>interface CameraKeyframe\<close> of \<^verbatim>\<open>scenes.config.ts\<close>; the optional \<^verbatim>\<open>fov\<close> is an option.\<close>

record CameraKeyframe =
  position :: Vector3Tuple
  rotation :: EulerTuple
  fov :: "real option"

text \<open>
  \<^verbatim>\<open>interface SceneConfig\<close>. The fields \<^verbatim>\<open>id\<close> and \<^verbatim>\<open>name\<close> are prefixed, and the nested
  object \<^verbatim>\<open>camera: {start, end}\<close> is flattened into \<open>camera_start\<close> and \<open>camera_end\<close>.
\<close>

record SceneConfig =
  scene_id :: string
  scene_name :: string
  scrollStart :: real
  scrollEnd :: real
  duration :: real
  camera_start :: CameraKeyframe
  camera_end :: CameraKeyframe
  easing :: string
  description :: string

definition keyframe :: "Vector3Tuple \<Rightarrow> EulerTuple \<Rightarrow> CameraKeyframe" where
  "keyframe p r = \<lparr>position = p, rotation = r, fov = None\<rparr>"

definition scene_hero :: SceneConfig where
  "scene_hero = \<lparr>scene_id = ''hero'', scene_name = ''Hero Introduction'',
     scrollStart = 0, scrollEnd = 0.2, duration = 1.2,
     camera_start = keyframe (0, 0, 5) (0, 0, 0),
     camera_end = keyframe (0, 0, 5) (0, 0, 0),
     easing = ''power1.inOut'',
     description = ''Static establishing shot - let the model speak for itself''\<rparr>"

definition scene_gesture_flow :: SceneConfig where
  "scene_gesture_flow = \<lparr>scene_id = ''gesture-flow'', scene_name = ''Gesture to Voice Flow'',
     scrollStart = 0.2, scrollEnd = 0.5, duration = 2.0,
     camera_start = keyframe (0, 0, 5) (0, 0, 0),
     camera_end = keyframe (0, 0.2, 2.8) (0, 0.08, 0),
     easing = ''power1.inOut'',
     description = ''Slow dolly in - intentional approach to show sensor detail''\<rparr>"

definition scene_technology :: SceneConfig where
  "scene_technology = \<lparr>scene_id = ''technology'', scene_name = ''Technology Architecture'',
     scrollStart = 0.5, scrollEnd = 0.7, duration = 1.5,
     camera_start = keyframe (0, 0.2, 2.8) (0, 0.08, 0),
     camera_end = keyframe (2.5, 1.5, 4) (-0.15, -0.25, 0),
     easing = ''power1.inOut'',
     description = ''Heavier orbit movement - reveals the full system''\<rparr>"

definition scene_impact :: SceneConfig where
  "scene_impact = \<lparr>scene_id = ''impact'', scene_name = ''Social Impact'',
     scrollStart = 0.7, scrollEnd = 0.9, duration = 1.3,
     camera_start = keyframe (2.5, 1.5, 4) (-0.15, -0.25, 0),
     camera_end = keyframe (0, 0.8, 6) (-0.05, 0, 0),
     easing = ''power1.out'',
     description = ''Pull back with stillness - moment of calm for the message''\<rparr>"

definition scene_closing :: SceneConfig where
  "scene_closing = \<lparr>scene_id = ''closing'', scene_name = ''Call to Action'',
     scrollStart = 0.9, scrollEnd = 1.0, duration = 0.8,
     camera_start = keyframe (0, 0.8, 6) (-0.05, 0, 0),
     camera_end = keyframe (0, 0.3, 4.5) (0, 0, 0),
     easing = ''power1.inOut'',
     description = ''Final resting position - confident ending''\<rparr>"

text \<open>\<^verbatim>\<open>export const SCENE_TIMELINE: SceneConfig[]\<close>, in the order of the source.\<close>

definition SCENE_TIMELINE :: "SceneConfig list" where
  "SCENE_TIMELINE =
     [scene_hero, scene_gesture_flow, scene_technology, scene_impact, scene_closing]"

section \<open>Utilities\<close>

text \<open>
  The table \<^verbatim>\<open>easing\<close>. \<^verbatim>\<open>Math.pow\<close> with a literal natural exponent is the power of the
  reals, \<^verbatim>\<open>Math.pow(2, -10 * t)\<close> the real exponential \<open>powr\<close>.
\<close>

definition easeInOutCubic :: "real \<Rightarrow> real" where
  "easeInOutCubic t = (if t < 0.5 then 4 * t * t * t else 1 - (-2 * t + 2) ^ 3 / 2)"

definition easeOutQuart :: "real \<Rightarrow> real" where
  "easeOutQuart t = 1 - (1 - t) ^ 4"

definition easeInOutQuint :: "real \<Rightarrow> real" where
  "easeInOutQuint t = (if t < 0.5 then 16 * t * t * t * t * t else 1 - (-2 * t + 2) ^ 5 / 2)"

definition easeOutElastic :: "real \<Rightarrow> real" where
  "easeOutElastic t =
     (let c4 = (2 * pi) / 3
      in if t = 0 then 0
         else if t = 1 then 1
         else 2 powr (-10 * t) * sin ((t * 10 - 0.75) * c4) + 1)"

text \<open>\<^verbatim>\<open>clamp = (value, min, max) => Math.min(Math.max(value, min), max)\<close>.\<close>

definition clamp :: "real \<Rightarrow> real \<Rightarrow> real \<Rightarrow> real" where
  "clamp v lo hi = min (max v lo) hi"

section \<open>Scene bucketing\<close>

text \<open>
  \<^verbatim>\<open>Array.prototype.findIndex\<close>: the index of the first element that satisfies the
  predicate, and \<open>-1\<close> when there is none.
\<close>

fun findIndex_from :: "('a \<Rightarrow> bool) \<Rightarrow> 'a list \<Rightarrow> int \<Rightarrow> int" where
  "findIndex_from P [] i = -1"
| "findIndex_from P (x # xs) i = (if P x then i else findIndex_from P xs (i + 1))"

definition findIndex :: "('a \<Rightarrow> bool) \<Rightarrow> 'a list \<Rightarrow> int" where
  "findIndex P xs = findIndex_from P xs 0"

text \<open>The predicate of the controller's scan: \<^verbatim>\<open>progress >= scene.scrollStart && progress < scene.scrollEnd\<close>.\<close>

definition in_scene :: "real \<Rightarrow> SceneConfig \<Rightarrow> bool" where
  "in_scene progress scene \<longleftrightarrow> progress \<ge> scrollStart scene \<and> progress < scrollEnd scene"

text \<open>\<^verbatim>\<open>const currentScene = SCENE_TIMELINE.findIndex(...)\<close>, for any timeline.\<close>

definition currentScene :: "SceneConfig list \<Rightarrow> real \<Rightarrow> int" where
  "currentScene scenes progress = findIndex (in_scene progress) scenes"

text \<open>
  The \<^verbatim>\<open>onUpdate\<close> handler of \<^verbatim>\<open>useCameraController\<close>. The optional callback is a flag
  (\<open>True\<close> when \<^verbatim>\<open>onSceneChange\<close> was passed); its invocations are appended to a log of the
  arguments it received.
\<close>

definition onUpdate :: "SceneConfig list \<Rightarrow> bool \<Rightarrow> real \<Rightarrow> int list \<Rightarrow> int list" where
  "onUpdate scenes onSceneChange progress calls =
     (let cs = currentScene scenes progress
      in if cs \<noteq> -1 \<and> onSceneChange then calls @ [cs + 1] else calls)"

text \<open>The threshold chain of the \<^verbatim>\<open>onUpdate\<close> handler of \<^verbatim>\<open>useScrollAnimation\<close>.\<close>

definition legacy_scene :: "real \<Rightarrow> int" where
  "legacy_scene progress =
     (if progress < 0.2 then 1
      else if progress < 0.5 then 2
      else if progress < 0.7 then 3
      else if progress < 0.9 then 4
      else 5)"

definition legacy_onUpdate :: "bool \<Rightarrow> real \<Rightarrow> int list \<Rightarrow> int list" where
  "legacy_onUpdate onSceneChange progress calls =
     (if onSceneChange then calls @ [legacy_scene progress] else calls)"

section \<open>The tween timeline built by the hooks\<close>

text \<open>
  The camera object the hooks animate: \<^verbatim>\<open>camera.position\<close>, \<^verbatim>\<open>camera.rotation\<close> and
  \<^verbatim>\<open>camera.fov\<close>. A tween addresses single properties of it, here channels.
\<close>

record PerspectiveCamera =
  cam_position :: Vector3Tuple
  cam_rotation :: EulerTuple
  cam_fov :: real

datatype Channel = PosX | PosY | PosZ | RotX | RotY | RotZ | Fov

fun get_channel :: "Channel \<Rightarrow> PerspectiveCamera \<Rightarrow> real" where
  "get_channel PosX c = fst (cam_position c)"
| "get_channel PosY c = fst (snd (cam_position c))"
| "get_channel PosZ c = snd (snd (cam_position c))"
| "get_channel RotX c = fst (cam_rotation c)"
| "get_channel RotY c = fst (snd (cam_rotation c))"
| "get_channel RotZ c = snd (snd (cam_rotation c))"
| "get_channel Fov c = cam_fov c"

fun set_channel :: "Channel \<Rightarrow> real \<Rightarrow> PerspectiveCamera \<Rightarrow> PerspectiveCamera" where
  "set_channel PosX v c = c\<lparr>cam_position := (v, snd (cam_position c))\<rparr>"
| "set_channel PosY v c = c\<lparr>cam_position := (fst (cam_position c), v, snd (snd (cam_position c)))\<rparr>"
| "set_channel PosZ v c = c\<lparr>cam_position := (fst (cam_position c), fst (snd (cam_position c)), v)\<rparr>"
| "set_channel RotX v c = c\<lparr>cam_rotation := (v, snd (cam_rotation c))\<rparr>"
| "set_channel RotY v c = c\<lparr>cam_rotation := (fst (cam_rotation c), v, snd (snd (cam_rotation c)))\<rparr>"
| "set_channel RotZ v c = c\<lparr>cam_rotation := (fst (cam_rotation c), fst (snd (cam_rotation c)), v)\<rparr>"
| "set_channel Fov v c = c\<lparr>cam_fov := v\<rparr>"

text \<open>
  One call \<^verbatim>\<open>tl.to(target, {..., duration, ease}, position)\<close>: the end values by channel,
  the duration, the name of the ease and the position on the timeline.
\<close>

record Tween =
  vars :: "(Channel \<times> real) list"
  tween_duration :: real
  ease :: string
  tween_at :: real

text \<open>JavaScript truthiness of an optional number: \<^verbatim>\<open>if (cameraConfig.end.fov)\<close>.\<close>

definition truthy :: "real option \<Rightarrow> bool" where
  "truthy v = (case v of None \<Rightarrow> False | Some x \<Rightarrow> x \<noteq> 0)"

text \<open>The body of \<^verbatim>\<open>SCENE_TIMELINE.forEach((scene) => ...)\<close> in \<^verbatim>\<open>useCameraController\<close>.\<close>

definition scene_tweens :: "SceneConfig \<Rightarrow> real \<Rightarrow> Tween list" where
  "scene_tweens scene cumulativeDuration =
     (let cameraConfig_end = camera_end scene in
      [\<lparr>vars = [(PosX, fst (position cameraConfig_end)),
                (PosY, fst (snd (position cameraConfig_end))),
                (PosZ, snd (snd (position cameraConfig_end)))],
        tween_duration = duration scene, ease = easing scene, tween_at = cumulativeDuration\<rparr>,
       \<lparr>vars = [(RotX, fst (rotation cameraConfig_end)),
                (RotY, fst (snd (rotation cameraConfig_end))),
                (RotZ, snd (snd (rotation cameraConfig_end)))],
        tween_duration = duration scene, ease = easing scene, tween_at = cumulativeDuration\<rparr>]
      @ (if truthy (fov cameraConfig_end)
         then [\<lparr>vars = [(Fov, the (fov cameraConfig_end))],
                 tween_duration = duration scene, ease = easing scene, tween_at = cumulativeDuration\<rparr>]
         else []))"

text \<open>The loop, with \<^verbatim>\<open>cumulativeDuration += duration\<close> after each scene.\<close>

fun build_timeline :: "SceneConfig list \<Rightarrow> real \<Rightarrow> Tween list" where
  "build_timeline [] cumulativeDuration = []"
| "build_timeline (scene # rest) cumulativeDuration =
     scene_tweens scene cumulativeDuration
     @ build_timeline rest (cumulativeDuration + duration scene)"

text \<open>
  The effect of \<^verbatim>\<open>useCameraController\<close>: \<^verbatim>\<open>if (!camera) return;\<close>, otherwise the timeline
  (with its scroll trigger) is created, filled and stored in \<^verbatim>\<open>timelineRef.current\<close>.
  There is no other exit: nothing in the effect inspects the scenes or throws.
\<close>

definition useCameraController_effect ::
    "SceneConfig list \<Rightarrow> PerspectiveCamera option \<Rightarrow> Tween list option" where
  "useCameraController_effect scenes camera =
     (case camera of None \<Rightarrow> None | Some c \<Rightarrow> Some (build_timeline scenes 0))"

text \<open>The eight \<^verbatim>\<open>tl.to\<close> calls of \<^verbatim>\<open>useScrollAnimation\<close>, in the order of the source.\<close>

definition legacy_tweens :: "Tween list" where
  "legacy_tweens =
     [\<lparr>vars = [(PosX, 0), (PosY, 0), (PosZ, 5)], tween_duration = 1, ease = ''power2.inOut'', tween_at = 0\<rparr>,
      \<lparr>vars = [(PosZ, 2.5)], tween_duration = 1.5, ease = ''power2.inOut'', tween_at = 1\<rparr>,
      \<lparr>vars = [(RotY, 0.1)], tween_duration = 1.5, ease = ''power2.inOut'', tween_at = 1\<rparr>,
      \<lparr>vars = [(PosX, 3), (PosY, 2), (PosZ, 4)], tween_duration = 1, ease = ''power2.inOut'', tween_at = 2.5\<rparr>,
      \<lparr>vars = [(RotY, -0.3), (RotX, -0.2)], tween_duration = 1, ease = ''power2.inOut'', tween_at = 2.5\<rparr>,
      \<lparr>vars = [(PosX, 0), (PosY, 1), (PosZ, 6)], tween_duration = 1, ease = ''power2.out'', tween_at = 3.5\<rparr>,
      \<lparr>vars = [(RotY, 0), (RotX, 0)], tween_duration = 1, ease = ''power2.out'', tween_at = 3.5\<rparr>,
      \<lparr>vars = [(PosX, 0), (PosY, 0.5), (PosZ, 4)], tween_duration = 0.5, ease = ''power2.inOut'', tween_at = 4.5\<rparr>]"

definition useScrollAnimation_effect :: "PerspectiveCamera option \<Rightarrow> Tween list option" where
  "useScrollAnimation_effect camera =
     (case camera of None \<Rightarrow> None | Some c \<Rightarrow> Some legacy_tweens)"

section \<open>How the scrubbed timeline drives the camera\<close>

text \<open>
  The hooks hand the tweens to the GSAP library, which moves the camera; the repository
  has no interpolation code of its own. What follows is the behaviour of that library the
  hooks rely on, for a timeline scrubbed by a scroll trigger once the scrub has caught up
  with the scroll position:
  \<^item> the playhead is the scroll progress times the duration of the timeline;
  \<^item> a tween whose position the playhead has not reached leaves its target alone;
  \<^item> a \<^verbatim>\<open>to\<close> tween moves each property from the value it has when the tween starts to the
    end value, by the eased fraction of the tween's duration that has elapsed;
  \<^item> the ease \<^verbatim>\<open>none\<close> is linear and \<^verbatim>\<open>power1\<close> to \<^verbatim>\<open>power4\<close> are the powers two to five, each
    as \<^verbatim>\<open>.in\<close>, \<^verbatim>\<open>.out\<close> and \<^verbatim>\<open>.inOut\<close>. The hooks use \<^verbatim>\<open>power1.inOut\<close>, \<^verbatim>\<open>power1.out\<close>,
    \<^verbatim>\<open>power2.inOut\<close> and \<^verbatim>\<open>power2.out\<close> only. Any other name is given the default
    \<^verbatim>\<open>power1.out\<close>, as the library does with a name it does not know; the further eases
    the library knows (\<^verbatim>\<open>back\<close>, \<^verbatim>\<open>elastic\<close>, \<^verbatim>\<open>sine\<close> and so on) are not modelled.
\<close>

datatype EaseKind = EaseIn | EaseOut | EaseInOut

definition power_ease :: "nat \<Rightarrow> EaseKind \<Rightarrow> real \<Rightarrow> real" where
  "power_ease n k r =
     (case k of
        EaseIn \<Rightarrow> r ^ n
      | EaseOut \<Rightarrow> 1 - (1 - r) ^ n
      | EaseInOut \<Rightarrow> (if r < 0.5 then (r * 2) ^ n / 2 else 1 - ((1 - r) * 2) ^ n / 2))"

definition ease_of_name :: "string \<Rightarrow> nat \<times> EaseKind" where
  "ease_of_name nm =
     (if nm = ''none'' then (1, EaseIn)
      else if nm = ''power1.in'' then (2, EaseIn)
      else if nm = ''power1.out'' then (2, EaseOut)
      else if nm = ''power1.inOut'' then (2, EaseInOut)
      else if nm = ''power2.in'' then (3, EaseIn)
      else if nm = ''power2.out'' then (3, EaseOut)
      else if nm = ''power2.inOut'' then (3, EaseInOut)
      else if nm = ''power3.in'' then (4, EaseIn)
      else if nm = ''power3.out'' then (4, EaseOut)
      else if nm = ''power3.inOut'' then (4, EaseInOut)
      else if nm = ''power4.in'' then (5, EaseIn)
      else if nm = ''power4.out'' then (5, EaseOut)
      else if nm = ''power4.inOut'' then (5, EaseInOut)
      else (2, EaseOut))"

definition gsap_ease :: "string \<Rightarrow> real \<Rightarrow> real" where
  "gsap_ease nm r = power_ease (fst (ease_of_name nm)) (snd (ease_of_name nm)) r"

definition total_duration :: "Tween list \<Rightarrow> real" where
  "total_duration tws = fold (\<lambda>tw m. max m (tween_at tw + tween_duration tw)) tws 0"

definition playhead :: "Tween list \<Rightarrow> real \<Rightarrow> real" where
  "playhead tws progress = progress * total_duration tws"

definition tween_fraction :: "Tween \<Rightarrow> real \<Rightarrow> real" where
  "tween_fraction tw t =
     (if t \<ge> tween_at tw + tween_duration tw then 1 else (t - tween_at tw) / tween_duration tw)"

definition render_tween :: "real \<Rightarrow> Tween \<Rightarrow> PerspectiveCamera \<Rightarrow> PerspectiveCamera" where
  "render_tween t tw c =
     (if t < tween_at tw then c
      else fold (\<lambda>(ch, v) c'. set_channel ch
                  (get_channel ch c + gsap_ease (ease tw) (tween_fraction tw t) * (v - get_channel ch c)) c')
             (vars tw) c)"

definition render_timeline :: "Tween list \<Rightarrow> real \<Rightarrow> PerspectiveCamera \<Rightarrow> PerspectiveCamera" where
  "render_timeline tws t c = fold (render_tween t) tws c"

text \<open>
  The share of its way a tween has gone at time \<open>t\<close>: nothing before its position, the
  eased fraction from there on. It is the factor \<open>render_tween\<close> applies to every channel.
\<close>

definition tween_ratio :: "Tween \<Rightarrow> real \<Rightarrow> real" where
  "tween_ratio tw t = (if t < tween_at tw then 0 else gsap_ease (ease tw) (tween_fraction tw t))"

text \<open>
  The mounted hook: the camera it was given, the pose of that camera when the effect ran
  (the start of the first tweens), the timeline the effect stored, and the log of the
  arguments \<^verbatim>\<open>onSceneChange\<close> was called with.
\<close>

record World =
  camera :: "PerspectiveCamera option"
  origin :: "PerspectiveCamera option"
  timelineRef :: "Tween list option"
  calls :: "int list"

definition mount :: "SceneConfig list \<Rightarrow> PerspectiveCamera option \<Rightarrow> World" where
  "mount scenes cam =
     \<lparr>camera = cam, origin = cam, timelineRef = useCameraController_effect scenes cam, calls = []\<rparr>"

definition legacy_mount :: "PerspectiveCamera option \<Rightarrow> World" where
  "legacy_mount cam =
     \<lparr>camera = cam, origin = cam, timelineRef = useScrollAnimation_effect cam, calls = []\<rparr>"

text \<open>
  A progress notification of the scroll trigger: one run of the \<^verbatim>\<open>onUpdate\<close> handler with
  the progress the trigger delivers. A scroll trigger exists only when the effect created
  the timeline; then the camera is rendered at the playhead and the handler of the hook
  runs. The trigger delivers a progress only when it differs from the one before, so a
  list of notifications stands for a page only if neighbours differ and the first is
  not the progress at mount.
\<close>

definition notify :: "SceneConfig list \<Rightarrow> bool \<Rightarrow> real \<Rightarrow> World \<Rightarrow> World" where
  "notify scenes onSceneChange progress w =
     (case timelineRef w of
        None \<Rightarrow> w
      | Some tws \<Rightarrow> w\<lparr>camera := map_option (render_timeline tws (playhead tws progress)) (origin w),
                      calls := onUpdate scenes onSceneChange progress (calls w)\<rparr>)"

definition legacy_notify :: "bool \<Rightarrow> real \<Rightarrow> World \<Rightarrow> World" where
  "legacy_notify onSceneChange progress w =
     (case timelineRef w of
        None \<Rightarrow> w
      | Some tws \<Rightarrow> w\<lparr>camera := map_option (render_timeline tws (playhead tws progress)) (origin w),
                      calls := legacy_onUpdate onSceneChange progress (calls w)\<rparr>)"

definition run :: "SceneConfig list \<Rightarrow> bool \<Rightarrow> real list \<Rightarrow> World \<Rightarrow> World" where
  "run scenes onSceneChange ps w = fold (notify scenes onSceneChange) ps w"

definition legacy_run :: "bool \<Rightarrow> real list \<Rightarrow> World \<Rightarrow> World" where
  "legacy_run onSceneChange ps w = fold (legacy_notify onSceneChange) ps w"

text \<open>The camera of the page: \<^verbatim>\<open><PerspectiveCamera makeDefault position={[0, 0, 5]} fov={50} />\<close>.\<close>

definition page_camera :: PerspectiveCamera where
  "page_camera = \<lparr>cam_position = (0, 0, 5), cam_rotation = (0, 0, 0), cam_fov = 50\<rparr>"

section \<open>The configuration contract of the specification\<close>

text \<open>
  The hooks contain no check of the scene list. The contract below is the one the
  specification words: every segment has \<open>start < end\<close>, and each segment ends where the
  next one starts. It is used only to say which scene lists the specification calls
  invalid.
\<close>

fun spec_contiguous :: "SceneConfig list \<Rightarrow> bool" where
  "spec_contiguous (a # b # rest) = (scrollEnd a = scrollStart b \<and> spec_contiguous (b # rest))"
| "spec_contiguous [a] = True"
| "spec_contiguous [] = True"

definition spec_valid_config :: "SceneConfig list \<Rightarrow> bool" where
  "spec_valid_config scenes \<longleftrightarrow>
     list_all (\<lambda>s. scrollStart s < scrollEnd s) scenes \<and> spec_contiguous scenes"

section \<open>Properties of the utilities\<close>

text \<open>
  Claim C10. For all reals \<open>value\<close>, \<open>min\<close>, \<open>max\<close> with \<open>min \<le> max\<close>, the result of
  \<open>clamp value min max\<close> lies in the interval from \<open>min\<close> to \<open>max\<close>; it is \<open>min\<close> when
  \<open>value < min\<close>, \<open>max\<close> when \<open>value > max\<close>, and \<open>value\<close> itself when \<open>value\<close> is in range.
\<close>

theorem clamp_spec:
  assumes "lo \<le> hi"
  shows "lo \<le> clamp v lo hi \<and> clamp v lo hi \<le> hi
    \<and> (v < lo \<longrightarrow> clamp v lo hi = lo)
    \<and> (v > hi \<longrightarrow> clamp v lo hi = hi)
    \<and> (lo \<le> v \<and> v \<le> hi \<longrightarrow> clamp v lo hi = v)"
  using assms by (auto simp: clamp_def)

theorem clamp_spec_witness:
  "(0::real) \<le> 1 \<and> clamp (-3) 0 1 = 0 \<and> clamp 7 0 1 = 1 \<and> clamp 0.35 0 1 = 0.35
    \<and> 0 \<le> clamp 7 0 1 \<and> clamp 7 0 1 \<le> 1"
proof -
  have h: "(0::real) \<le> 1" by simp
  show ?thesis
    using clamp_spec [OF h, of "-3"] clamp_spec [OF h, of 7] clamp_spec [OF h, of "0.35"]
    by simp
qed

section \<open>Properties of the easing table\<close>

lemma easing_endpoints:
  "easeInOutCubic 0 = 0" "easeInOutCubic 1 = 1"
  "easeOutQuart 0 = 0" "easeOutQuart 1 = 1"
  "easeInOutQuint 0 = 0" "easeInOutQuint 1 = 1"
  "easeOutElastic 0 = 0" "easeOutElastic 1 = 1"
  by (simp_all add: easeInOutCubic_def easeOutQuart_def easeInOutQuint_def easeOutElastic_def)

lemma easeInOutCubic_mono:
  assumes "0 \<le> s" "s \<le> t" "t \<le> 1"
  shows "easeInOutCubic s \<le> easeInOutCubic t"
proof -
  have lo: "4 * x * x * x \<le> 1/2" if "0 \<le> x" "x < 1/2" for x :: real
  proof -
    have "x ^ 3 \<le> (1/2) ^ 3" using that by (intro power_mono) auto
    then show ?thesis by (simp add: power3_eq_cube algebra_simps)
  qed
  have hi: "1/2 \<le> 1 - (-2 * x + 2) ^ 3 / 2" if "1/2 \<le> x" "x \<le> 1" for x :: real
  proof -
    have "(-2 * x + 2) ^ 3 \<le> 1 ^ 3" using that by (intro power_mono) auto
    then show ?thesis by simp
  qed
  consider "t < 1/2" | "s < 1/2" "1/2 \<le> t" | "1/2 \<le> s" using assms by linarith
  then show ?thesis
  proof cases
    case 1
    then have "s < 1/2" using assms by simp
    have "s ^ 3 \<le> t ^ 3" using assms by (intro power_mono) auto
    then show ?thesis
      using 1 \<open>s < 1/2\<close> by (simp add: easeInOutCubic_def power3_eq_cube algebra_simps)
  next
    case 2
    then show ?thesis using lo[of s] hi[of t] assms by (simp add: easeInOutCubic_def)
  next
    case 3
    then have "1/2 \<le> t" using assms by simp
    have "(-2 * t + 2) ^ 3 \<le> (-2 * s + 2) ^ 3" using assms by (intro power_mono) auto
    then show ?thesis using 3 \<open>1/2 \<le> t\<close> by (simp add: easeInOutCubic_def)
  qed
qed

lemma easeOutQuart_mono:
  assumes "0 \<le> s" "s \<le> t" "t \<le> 1"
  shows "easeOutQuart s \<le> easeOutQuart t"
proof -
  have "(1 - t) ^ 4 \<le> (1 - s) ^ 4" using assms by (intro power_mono) auto
  then show ?thesis by (simp add: easeOutQuart_def)
qed

lemma easeInOutQuint_mono:
  assumes "0 \<le> s" "s \<le> t" "t \<le> 1"
  shows "easeInOutQuint s \<le> easeInOutQuint t"
proof -
  have lo: "16 * x * x * x * x * x \<le> 1/2" if "0 \<le> x" "x < 1/2" for x :: real
  proof -
    have "x ^ 5 \<le> (1/2) ^ 5" using that by (intro power_mono) auto
    then show ?thesis by (simp add: power_numeral_reduce algebra_simps)
  qed
  have hi: "1/2 \<le> 1 - (-2 * x + 2) ^ 5 / 2" if "1/2 \<le> x" "x \<le> 1" for x :: real
  proof -
    have "(-2 * x + 2) ^ 5 \<le> 1 ^ 5" using that by (intro power_mono) auto
    then show ?thesis by simp
  qed
  consider "t < 1/2" | "s < 1/2" "1/2 \<le> t" | "1/2 \<le> s" using assms by linarith
  then show ?thesis
  proof cases
    case 1
    then have "s < 1/2" using assms by simp
    have "s ^ 5 \<le> t ^ 5" using assms by (intro power_mono) auto
    then show ?thesis
      using 1 \<open>s < 1/2\<close> by (simp add: easeInOutQuint_def power_numeral_reduce algebra_simps)
  next
    case 2
    then show ?thesis using lo[of s] hi[of t] assms by (simp add: easeInOutQuint_def)
  next
    case 3
    then have "1/2 \<le> t" using assms by simp
    have "(-2 * t + 2) ^ 5 \<le> (-2 * s + 2) ^ 5" using assms by (intro power_mono) auto
    then show ?thesis using 3 \<open>1/2 \<le> t\<close> by (simp add: easeInOutQuint_def)
  qed
qed

text \<open>At a tenth the elastic ease is \<open>2 powr (-1) * sin (pi / 6) + 1\<close>, five quarters.\<close>

lemma easeOutElastic_tenth: "easeOutElastic (1/10) = 5/4"
proof -
  have a: "((1/10::real) * 10 - 0.75) * ((2 * pi) / 3) = pi / 6" by simp
  have b0: "(-10 * (1/10)::real) = - 1" by simp
  have b: "(2::real) powr (-10 * (1/10)) = 1/2" unfolding b0 by (simp add: powr_neg_one)
  show ?thesis unfolding easeOutElastic_def Let_def a b by (simp add: sin_30)
qed

text \<open>
  Claim C8, as stated, fails for \<open>easeOutElastic\<close>: at \<open>t = 1/10\<close>, inside the unit
  interval, its value is \<open>5/4\<close>, above \<open>1\<close> and above its value at \<open>t = 1\<close>, so it neither
  maps into the unit interval nor is monotonic.
\<close>

theorem easeOutElastic_overshoots:
  "(0::real) \<le> 1/10 \<and> (1/10::real) \<le> 1 \<and> easeOutElastic (1/10) = 5/4
     \<and> \<not> easeOutElastic (1/10) \<le> 1
     \<and> \<not> easeOutElastic (1/10) \<le> easeOutElastic 1"
  by (simp add: easeOutElastic_tenth easing_endpoints)

text \<open>
  Claim C8, amended. All four entries of the easing table send \<open>0\<close> to \<open>0\<close> and \<open>1\<close> to \<open>1\<close>.
  The three polynomial eases \<open>easeInOutCubic\<close>, \<open>easeOutQuart\<close> and \<open>easeInOutQuint\<close> are
  monotonic on the unit interval and map it into itself; \<open>easeOutElastic\<close> is only
  promised its end points.
\<close>

theorem easing_table_contract:
  assumes "0 \<le> s" "s \<le> t" "t \<le> 1"
  shows "easeInOutCubic 0 = 0 \<and> easeInOutCubic 1 = 1
    \<and> easeOutQuart 0 = 0 \<and> easeOutQuart 1 = 1
    \<and> easeInOutQuint 0 = 0 \<and> easeInOutQuint 1 = 1
    \<and> easeOutElastic 0 = 0 \<and> easeOutElastic 1 = 1
    \<and> easeInOutCubic s \<le> easeInOutCubic t
    \<and> easeOutQuart s \<le> easeOutQuart t
    \<and> easeInOutQuint s \<le> easeInOutQuint t
    \<and> 0 \<le> easeInOutCubic t \<and> easeInOutCubic t \<le> 1
    \<and> 0 \<le> easeOutQuart t \<and> easeOutQuart t \<le> 1
    \<and> 0 \<le> easeInOutQuint t \<and> easeInOutQuint t \<le> 1"
proof -
  have t: "0 \<le> t" using assms by simp
  have r: "(0::real) \<le> 0" "(1::real) \<le> 1" "(0::real) \<le> 1" by simp_all
  note m = easeInOutCubic_mono [OF assms] easeOutQuart_mono [OF assms]
    easeInOutQuint_mono [OF assms]
  note l = easeInOutCubic_mono [OF r(1) t assms(3)] easeOutQuart_mono [OF r(1) t assms(3)]
    easeInOutQuint_mono [OF r(1) t assms(3)]
  note u = easeInOutCubic_mono [OF t assms(3) r(2)] easeOutQuart_mono [OF t assms(3) r(2)]
    easeInOutQuint_mono [OF t assms(3) r(2)]
  show ?thesis using m l u by (simp add: easing_endpoints)
qed

theorem easing_table_contract_witness:
  "(0::real) \<le> 1/4 \<and> (1/4::real) \<le> 3/4 \<and> (3/4::real) \<le> 1
    \<and> easeInOutCubic (1/4) \<le> easeInOutCubic (3/4)
    \<and> easeOutQuart (1/4) \<le> easeOutQuart (3/4)
    \<and> easeInOutQuint (1/4) \<le> easeInOutQuint (3/4)
    \<and> easeInOutCubic (3/4) \<le> 1 \<and> easeOutElastic 1 = 1"
proof -
  have h: "(0::real) \<le> 1/4" "(1/4::real) \<le> 3/4" "(3/4::real) \<le> 1" by simp_all
  show ?thesis using h easing_table_contract [OF h] by simp
qed

section \<open>Properties of the scene bucketing\<close>

lemma currentScene_shipped:
  "currentScene SCENE_TIMELINE p =
     (if p < 0 then -1 else if p < 0.2 then 0 else if p < 0.5 then 1 else if p < 0.7 then 2
      else if p < 0.9 then 3 else if p < 1 then 4 else -1)"
  by (simp add: currentScene_def findIndex_def SCENE_TIMELINE_def in_scene_def
      scene_hero_def scene_gesture_flow_def scene_technology_def scene_impact_def
      scene_closing_def)

lemma in_scene_shipped:
  "in_scene p scene_hero \<longleftrightarrow> 0 \<le> p \<and> p < 0.2"
  "in_scene p scene_gesture_flow \<longleftrightarrow> 0.2 \<le> p \<and> p < 0.5"
  "in_scene p scene_technology \<longleftrightarrow> 0.5 \<le> p \<and> p < 0.7"
  "in_scene p scene_impact \<longleftrightarrow> 0.7 \<le> p \<and> p < 0.9"
  "in_scene p scene_closing \<longleftrightarrow> 0.9 \<le> p \<and> p < 1"
  by (simp_all add: in_scene_def scene_hero_def scene_gesture_flow_def scene_technology_def
      scene_impact_def scene_closing_def)

lemma SCENE_TIMELINE_nth:
  "SCENE_TIMELINE ! 0 = scene_hero" "SCENE_TIMELINE ! Suc 0 = scene_gesture_flow"
  "SCENE_TIMELINE ! 2 = scene_technology" "SCENE_TIMELINE ! 3 = scene_impact"
  "SCENE_TIMELINE ! 4 = scene_closing"
  "SCENE_TIMELINE ! Suc (Suc 0) = scene_technology"
  by (simp_all add: SCENE_TIMELINE_def)

text \<open>Below \<open>1\<close> the shipped ranges neither leave a gap nor overlap.\<close>

lemma coverage_below_one:
  assumes "0 \<le> p" "p < 1"
  shows "length (filter (in_scene p) SCENE_TIMELINE) = 1"
  using assms by (simp add: SCENE_TIMELINE_def in_scene_shipped)

text \<open>
  Claim C9. For every progress \<open>p\<close> with \<open>0 \<le> p < 1\<close> the scene index of the threshold
  chain of the legacy hook is one more than the index the controller's \<open>findIndex\<close> scan
  returns on the shipped timeline; that index is the only one whose segment satisfies
  \<open>scrollStart \<le> p < scrollEnd\<close>; and the two handlers call \<open>onSceneChange\<close> alike.
\<close>

theorem bucketing_equivalent_below_one:
  assumes "0 \<le> p" "p < 1"
  shows "legacy_scene p = currentScene SCENE_TIMELINE p + 1
    \<and> (\<forall>i < length SCENE_TIMELINE.
          in_scene p (SCENE_TIMELINE ! i) \<longleftrightarrow> int i = currentScene SCENE_TIMELINE p)
    \<and> onUpdate SCENE_TIMELINE cb p cs = legacy_onUpdate cb p cs"
proof -
  have a: "legacy_scene p = currentScene SCENE_TIMELINE p + 1"
    using assms by (simp add: currentScene_shipped legacy_scene_def)
  have b: "in_scene p (SCENE_TIMELINE ! i) \<longleftrightarrow> int i = currentScene SCENE_TIMELINE p"
    if "i < length SCENE_TIMELINE" for i
  proof -
    from that have "i = 0 \<or> i = 1 \<or> i = 2 \<or> i = 3 \<or> i = 4"
      by (simp add: SCENE_TIMELINE_def) arith
    then show ?thesis
      using assms
      by (elim disjE) (simp_all add: SCENE_TIMELINE_nth in_scene_shipped currentScene_shipped)
  qed
  have c: "onUpdate SCENE_TIMELINE cb p cs = legacy_onUpdate cb p cs"
    using assms a by (simp add: onUpdate_def legacy_onUpdate_def Let_def currentScene_shipped)
  from a b c show ?thesis by blast
qed

theorem bucketing_equivalent_below_one_witness:
  "(0::real) \<le> 0.35 \<and> (0.35::real) < 1 \<and> legacy_scene 0.35 = 2
    \<and> currentScene SCENE_TIMELINE 0.35 = 1
    \<and> in_scene 0.35 (SCENE_TIMELINE ! 1) \<and> \<not> in_scene 0.35 (SCENE_TIMELINE ! 2)"
proof -
  have h: "(0::real) \<le> 0.35" "(0.35::real) < 1" by simp_all
  have l: "(1::nat) < length SCENE_TIMELINE" "(2::nat) < length SCENE_TIMELINE"
    by (simp_all add: SCENE_TIMELINE_def)
  have v: "legacy_scene 0.35 = 2" by (simp add: legacy_scene_def)
  show ?thesis using bucketing_equivalent_below_one [OF h, of True "[]"] l v h by auto
qed

text \<open>
  Claim C4. The shipped timeline starts at \<open>0\<close>, ends at \<open>1\<close>, and every segment ends where
  the next one starts. With the controller's test \<open>scrollStart \<le> p < scrollEnd\<close> the
  progress \<open>p = 1\<close> is in no segment, where the claim wants exactly one.
\<close>

theorem shipped_ranges_contiguous_but_one_uncovered:
  "scrollStart (hd SCENE_TIMELINE) = 0 \<and> scrollEnd (last SCENE_TIMELINE) = 1
    \<and> map scrollEnd (butlast SCENE_TIMELINE) = map scrollStart (tl SCENE_TIMELINE)
    \<and> length (filter (in_scene 0.2) SCENE_TIMELINE) = 1
    \<and> filter (in_scene 1) SCENE_TIMELINE = []"
  by (simp add: SCENE_TIMELINE_def in_scene_shipped)
    (simp add: scene_hero_def scene_gesture_flow_def scene_technology_def scene_impact_def
      scene_closing_def)

section \<open>Properties of the mounted hooks\<close>

lemma timelineRef_notify: "timelineRef (notify scenes cb p w) = timelineRef w"
  by (simp add: notify_def split: option.splits)

lemma timelineRef_run: "timelineRef (run scenes cb ps w) = timelineRef w"
  unfolding run_def by (induction ps arbitrary: w) (simp_all add: timelineRef_notify)

lemma calls_notify:
  "timelineRef w = Some tws \<Longrightarrow> calls (notify scenes cb p w) = onUpdate scenes cb p (calls w)"
  by (simp add: notify_def)

text \<open>The log after a run: one entry for every update that resolves, in order.\<close>

lemma calls_run:
  "timelineRef w = Some tws \<Longrightarrow>
   calls (run scenes True ps w) =
     calls w @ map (\<lambda>p. currentScene scenes p + 1)
                (filter (\<lambda>p. currentScene scenes p \<noteq> -1) ps)"
proof (induction ps arbitrary: w)
  case Nil
  then show ?case by (simp add: run_def)
next
  case (Cons p ps)
  have t: "timelineRef (notify scenes True p w) = Some tws"
    using Cons.prems by (simp add: timelineRef_notify)
  have "run scenes True (p # ps) w = run scenes True ps (notify scenes True p w)"
    by (simp add: run_def)
  then show ?case
    using Cons.IH [OF t] Cons.prems
    by (simp add: calls_notify onUpdate_def Let_def)
qed

lemma legacy_calls_run:
  "timelineRef w = Some tws \<Longrightarrow>
   calls (legacy_run True ps w) = calls w @ map legacy_scene ps"
proof (induction ps arbitrary: w)
  case Nil
  then show ?case by (simp add: legacy_run_def)
next
  case (Cons p ps)
  have t: "timelineRef (legacy_notify True p w) = Some tws"
    using Cons.prems by (simp add: legacy_notify_def)
  have "legacy_run True (p # ps) w = legacy_run True ps (legacy_notify True p w)"
    by (simp add: legacy_run_def)
  then show ?case
    using Cons.IH [OF t] Cons.prems
    by (simp add: legacy_notify_def legacy_onUpdate_def)
qed

lemmas mounted_simps =
  run_def legacy_run_def mount_def legacy_mount_def notify_def legacy_notify_def
  useCameraController_effect_def useScrollAnimation_effect_def onUpdate_def
  legacy_onUpdate_def legacy_scene_def

text \<open>
  What the scan returns, in terms of the test \<open>scrollStart \<le> p < scrollEnd\<close>: \<open>-1\<close> exactly
  when no scene passes it, and otherwise the index of the first scene that does.
\<close>

lemma findIndex_from_range:
  "findIndex_from P xs i = -1
    \<or> (i \<le> findIndex_from P xs i \<and> findIndex_from P xs i < i + int (length xs))"
  by (induction xs arbitrary: i) (simp, force)

lemma findIndex_from_none:
  "0 \<le> i \<Longrightarrow> findIndex_from P xs i = -1 \<longleftrightarrow> \<not> list_ex P xs"
proof (induction xs arbitrary: i)
  case Nil
  then show ?case by simp
next
  case (Cons x xs)
  have "0 \<le> i + 1" using Cons.prems by simp
  from Cons.IH [OF this] Cons.prems show ?case by auto
qed

lemma findIndex_from_found:
  "0 \<le> i \<Longrightarrow> findIndex_from P xs i \<noteq> -1 \<Longrightarrow>
   P (xs ! nat (findIndex_from P xs i - i))
    \<and> (\<forall>j < nat (findIndex_from P xs i - i). \<not> P (xs ! j))"
proof (induction xs arbitrary: i)
  case Nil
  then show ?case by simp
next
  case (Cons x xs)
  show ?case
  proof (cases "P x")
    case True
    then show ?thesis by simp
  next
    case False
    let ?k = "findIndex_from P xs (i + 1)"
    have k: "?k \<noteq> -1" using Cons.prems False by simp
    have i: "0 \<le> i + 1" using Cons.prems by simp
    have r: "i + 1 \<le> ?k" using findIndex_from_range [of P xs "i + 1"] k by auto
    then have n: "nat (?k - i) = Suc (nat (?k - (i + 1)))" by linarith
    from Cons.IH [OF i k] have
      h: "P (xs ! nat (?k - (i + 1)))" "\<forall>j < nat (?k - (i + 1)). \<not> P (xs ! j)"
      by simp_all
    have "\<not> P ((x # xs) ! j)" if "j < Suc (nat (?k - (i + 1)))" for j
      using that h(2) False by (cases j) simp_all
    then show ?thesis using False h(1) n by simp
  qed
qed

lemma currentScene_none:
  "currentScene scenes p = -1 \<longleftrightarrow> \<not> list_ex (in_scene p) scenes"
  by (simp add: currentScene_def findIndex_def findIndex_from_none)

lemma currentScene_found:
  assumes "currentScene scenes p \<noteq> -1"
  shows "0 \<le> currentScene scenes p \<and> nat (currentScene scenes p) < length scenes
    \<and> in_scene p (scenes ! nat (currentScene scenes p))
    \<and> (\<forall>j < nat (currentScene scenes p). \<not> in_scene p (scenes ! j))"
proof -
  let ?k = "findIndex_from (in_scene p) scenes 0"
  have k: "?k \<noteq> -1" using assms by (simp add: currentScene_def findIndex_def)
  have r: "0 \<le> ?k" "?k < int (length scenes)"
    using findIndex_from_range [of "in_scene p" scenes 0] k by auto
  have f: "in_scene p (scenes ! nat ?k)" "\<forall>j < nat ?k. \<not> in_scene p (scenes ! j)"
    using findIndex_from_found [of 0 "in_scene p" scenes] k by simp_all
  show ?thesis using r f by (simp add: currentScene_def findIndex_def)
qed

text \<open>
  The log of a mounted controller: one call for every delivered update whose progress lies
  in the range of some scene, with one more than the index of the first such scene; and
  the legacy hook calls on every update.
\<close>

lemma calls_of_mounted_run:
  "calls (run scenes True ps (mount scenes (Some cam))) =
     map (\<lambda>p. currentScene scenes p + 1) (filter (\<lambda>p. list_ex (in_scene p) scenes) ps)"
  "calls (legacy_run True ps (legacy_mount (Some cam))) = map legacy_scene ps"
proof -
  have a: "timelineRef (mount scenes (Some cam)) = Some (build_timeline scenes 0)"
    by (simp add: mount_def useCameraController_effect_def)
  have b: "timelineRef (legacy_mount (Some cam)) = Some legacy_tweens"
    by (simp add: legacy_mount_def useScrollAnimation_effect_def)
  show "calls (run scenes True ps (mount scenes (Some cam))) =
     map (\<lambda>p. currentScene scenes p + 1) (filter (\<lambda>p. list_ex (in_scene p) scenes) ps)"
    using calls_run [OF a] by (simp add: mount_def currentScene_none)
  show "calls (legacy_run True ps (legacy_mount (Some cam))) = map legacy_scene ps"
    using legacy_calls_run [OF b] by (simp add: legacy_mount_def)
qed

text \<open>
  Claim C1. The controller documents \<open>onSceneChange\<close> as the callback for when the scene
  changes, and the claim wants at most one call for each segment transition. The handler
  has no memory of the scene it reported last: the progress updates \<open>0.05\<close> and \<open>0.1\<close>, both
  in the range of the first scene and with no transition between them, make it call
  \<open>onSceneChange\<close> twice with the index \<open>1\<close>. The legacy hook does the same.
\<close>

theorem same_segment_updates_call_twice:
  "in_scene 0.05 (SCENE_TIMELINE ! 0) \<and> in_scene 0.1 (SCENE_TIMELINE ! 0)
    \<and> currentScene SCENE_TIMELINE 0.05 = 0 \<and> currentScene SCENE_TIMELINE 0.1 = 0
    \<and> calls (run SCENE_TIMELINE True [0.05, 0.1] (mount SCENE_TIMELINE (Some page_camera)))
        = [1, 1]
    \<and> calls (legacy_run True [0.05, 0.1] (legacy_mount (Some page_camera))) = [1, 1]"
  by (simp add: currentScene_shipped mounted_simps SCENE_TIMELINE_nth in_scene_shipped)

text \<open>
  Claim C6. Mounted with a null camera, either hook builds no timeline, and whatever
  progress notifications follow, the state stays as it was: no timeline, no camera pose,
  no call of \<open>onSceneChange\<close>.
\<close>

theorem null_camera_is_inert:
  "useCameraController_effect scenes None = None \<and> useScrollAnimation_effect None = None
    \<and> run scenes cb ps (mount scenes None)
        = \<lparr>camera = None, origin = None, timelineRef = None, calls = []\<rparr>
    \<and> legacy_run cb ps (legacy_mount None)
        = \<lparr>camera = None, origin = None, timelineRef = None, calls = []\<rparr>"
proof -
  have a: "run scenes cb ps w = w" if "timelineRef w = None" for w
    using that unfolding run_def by (induction ps) (simp_all add: notify_def)
  have b: "legacy_run cb ps w = w" if "timelineRef w = None" for w
    using that unfolding legacy_run_def by (induction ps) (simp_all add: legacy_notify_def)
  show ?thesis
    by (simp add: a b mount_def legacy_mount_def useCameraController_effect_def
        useScrollAnimation_effect_def)
qed

text \<open>
  Claim C5, as stated, fails. The scene list made of the shipped first and third scenes
  has a gap between \<open>0.2\<close> and \<open>0.5\<close>, and the list made of a scene with
  \<open>scrollStart = scrollEnd\<close> has an empty segment; the effect accepts both and builds
  their timelines, and an update in the gap passes without any call.
\<close>

theorem invalid_config_is_accepted:
  "\<not> spec_valid_config [scene_hero, scene_technology]
    \<and> useCameraController_effect [scene_hero, scene_technology] (Some page_camera)
        = Some (build_timeline [scene_hero, scene_technology] 0)
    \<and> calls (run [scene_hero, scene_technology] True [0.1, 0.35]
               (mount [scene_hero, scene_technology] (Some page_camera))) = [1]
    \<and> \<not> spec_valid_config [scene_hero\<lparr>scrollStart := 0.2\<rparr>]
    \<and> useCameraController_effect [scene_hero\<lparr>scrollStart := 0.2\<rparr>] (Some page_camera)
        = Some (build_timeline [scene_hero\<lparr>scrollStart := 0.2\<rparr>] 0)"
  by (simp add: spec_valid_config_def mounted_simps currentScene_def findIndex_def
      in_scene_shipped)
    (simp add: scene_hero_def scene_technology_def)

text \<open>
  Claim C5, amended. The effect does not validate the scene list: for every list of
  scenes and every camera it builds the timeline of that list and keeps it through all
  later updates; no configuration is rejected.
\<close>

theorem every_config_is_accepted:
  "useCameraController_effect scenes (Some cam) = Some (build_timeline scenes 0)
    \<and> timelineRef (run scenes cb ps (mount scenes (Some cam))) = Some (build_timeline scenes 0)"
  by (simp add: timelineRef_run) (simp add: mount_def useCameraController_effect_def)

section \<open>Properties of the shipped tween timeline\<close>

text \<open>The tweens the loop of the controller builds from the shipped scenes.\<close>

lemma shipped_tweens:
  "build_timeline SCENE_TIMELINE 0 =
    [\<lparr>vars = [(PosX, 0), (PosY, 0), (PosZ, 5)],
       tween_duration = 1.2, ease = ''power1.inOut'', tween_at = 0\<rparr>,
     \<lparr>vars = [(RotX, 0), (RotY, 0), (RotZ, 0)],
       tween_duration = 1.2, ease = ''power1.inOut'', tween_at = 0\<rparr>,
     \<lparr>vars = [(PosX, 0), (PosY, 0.2), (PosZ, 2.8)],
       tween_duration = 2, ease = ''power1.inOut'', tween_at = 1.2\<rparr>,
     \<lparr>vars = [(RotX, 0), (RotY, 0.08), (RotZ, 0)],
       tween_duration = 2, ease = ''power1.inOut'', tween_at = 1.2\<rparr>,
     \<lparr>vars = [(PosX, 2.5), (PosY, 1.5), (PosZ, 4)],
       tween_duration = 1.5, ease = ''power1.inOut'', tween_at = 3.2\<rparr>,
     \<lparr>vars = [(RotX, -0.15), (RotY, -0.25), (RotZ, 0)],
       tween_duration = 1.5, ease = ''power1.inOut'', tween_at = 3.2\<rparr>,
     \<lparr>vars = [(PosX, 0), (PosY, 0.8), (PosZ, 6)],
       tween_duration = 1.3, ease = ''power1.out'', tween_at = 4.7\<rparr>,
     \<lparr>vars = [(RotX, -0.05), (RotY, 0), (RotZ, 0)],
       tween_duration = 1.3, ease = ''power1.out'', tween_at = 4.7\<rparr>,
     \<lparr>vars = [(PosX, 0), (PosY, 0.3), (PosZ, 4.5)],
       tween_duration = 0.8, ease = ''power1.inOut'', tween_at = 6\<rparr>,
     \<lparr>vars = [(RotX, 0), (RotY, 0), (RotZ, 0)],
       tween_duration = 0.8, ease = ''power1.inOut'', tween_at = 6\<rparr>]"
  by (simp add: SCENE_TIMELINE_def scene_tweens_def truthy_def keyframe_def
      scene_hero_def scene_gesture_flow_def scene_technology_def scene_impact_def
      scene_closing_def)

lemma shipped_total_duration: "total_duration (build_timeline SCENE_TIMELINE 0) = 6.8"
  unfolding shipped_tweens by (simp add: total_duration_def)

lemma shipped_playhead: "playhead (build_timeline SCENE_TIMELINE 0) p = p * 6.8"
  by (simp add: playhead_def shipped_total_duration)

lemmas render_simps =
  render_timeline_def render_tween_def tween_fraction_def gsap_ease_def ease_of_name_def
  power_ease_def power2_eq_square

text \<open>Where the camera stands when the playhead is at the end of each scene's tweens.\<close>

lemma shipped_boundary_poses:
  "render_timeline (build_timeline SCENE_TIMELINE 0) (6/5) c
     = c\<lparr>cam_position := (0, 0, 5), cam_rotation := (0, 0, 0)\<rparr>"
  "render_timeline (build_timeline SCENE_TIMELINE 0) (16/5) c
     = c\<lparr>cam_position := (0, 0.2, 2.8), cam_rotation := (0, 0.08, 0)\<rparr>"
  "render_timeline (build_timeline SCENE_TIMELINE 0) (47/10) c
     = c\<lparr>cam_position := (2.5, 1.5, 4), cam_rotation := (-0.15, -0.25, 0)\<rparr>"
  "render_timeline (build_timeline SCENE_TIMELINE 0) 6 c
     = c\<lparr>cam_position := (0, 0.8, 6), cam_rotation := (-0.05, 0, 0)\<rparr>"
  "render_timeline (build_timeline SCENE_TIMELINE 0) (34/5) c
     = c\<lparr>cam_position := (0, 0.3, 4.5), cam_rotation := (0, 0, 0)\<rparr>"
  unfolding shipped_tweens by (simp_all add: render_simps)



section \<open>Continuity of the rendered pose\<close>

lemma power_ease_endpoints:
  assumes "0 < n"
  shows "power_ease n k 0 = 0" "power_ease n k 1 = 1"
  using assms by (cases k; simp add: power_ease_def)+

lemma power_ease_continuous: "continuous_on UNIV (power_ease n k)"
proof (cases k)
  case EaseIn
  then show ?thesis
    unfolding power_ease_def [abs_def] by (simp add: continuous_intros)
next
  case EaseOut
  then show ?thesis
    unfolding power_ease_def [abs_def] by (simp add: continuous_intros)
next
  case EaseInOut
  have "continuous_on ({..1/2} \<union> {1/2..})
      (\<lambda>r::real. if r < 1/2 then (r * 2) ^ n / 2 else 1 - ((1 - r) * 2) ^ n / 2)"
    by (rule continuous_on_If) (auto intro!: continuous_intros)
  moreover have "{..1/2} \<union> {1/2..} = (UNIV :: real set)" by auto
  ultimately show ?thesis
    using EaseInOut unfolding power_ease_def [abs_def] by simp
qed

lemma ease_of_name_degree: "0 < fst (ease_of_name nm)"
  by (simp add: ease_of_name_def)

lemma gsap_ease_endpoints: "gsap_ease nm 0 = 0" "gsap_ease nm 1 = 1"
  by (simp_all add: gsap_ease_def power_ease_endpoints ease_of_name_degree)

lemma gsap_ease_continuous: "continuous_on UNIV (gsap_ease nm)"
  unfolding gsap_ease_def [abs_def] by (rule power_ease_continuous)

text \<open>
  For a tween that lasts, the ratio is the ease of the elapsed fraction cut off at \<open>0\<close>
  and \<open>1\<close>, hence continuous in the time.
\<close>

lemma tween_ratio_clamped:
  assumes "0 < tween_duration tw"
  shows "tween_ratio tw t
    = gsap_ease (ease tw) (min 1 (max 0 ((t - tween_at tw) / tween_duration tw)))"
proof -
  consider "t < tween_at tw" | "tween_at tw \<le> t" "t < tween_at tw + tween_duration tw"
    | "tween_at tw + tween_duration tw \<le> t" by linarith
  then show ?thesis
  proof cases
    case 1
    then have "(t - tween_at tw) / tween_duration tw < 0"
      using assms by (simp add: divide_neg_pos)
    then show ?thesis using 1 by (simp add: tween_ratio_def gsap_ease_endpoints max_def)
  next
    case 2
    then have "0 \<le> (t - tween_at tw) / tween_duration tw"
      "(t - tween_at tw) / tween_duration tw < 1"
      using assms by simp_all
    then show ?thesis using 2 by (simp add: tween_ratio_def tween_fraction_def)
  next
    case 3
    then have "1 \<le> (t - tween_at tw) / tween_duration tw" using assms by simp
    then show ?thesis
      using 3 assms by (simp add: tween_ratio_def tween_fraction_def min_def max_def)
  qed
qed

lemma tween_ratio_continuous:
  assumes "0 < tween_duration tw"
  shows "continuous_on UNIV (tween_ratio tw)"
proof -
  have "continuous_on UNIV
      (\<lambda>t. gsap_ease (ease tw) (min 1 (max 0 ((t - tween_at tw) / tween_duration tw))))"
    using assms
    by (intro continuous_on_compose2 [OF gsap_ease_continuous] continuous_intros) simp_all
  moreover have "tween_ratio tw
      = (\<lambda>t. gsap_ease (ease tw) (min 1 (max 0 ((t - tween_at tw) / tween_duration tw))))"
    using tween_ratio_clamped [OF assms] by (intro ext)
  ultimately show ?thesis by (simp only:)
qed

lemma get_set_channel:
  "get_channel a (set_channel b v c) = (if a = b then v else get_channel a c)"
  by (cases a; cases b; simp)

lemma fold_vars_channel:
  "get_channel ch (fold (\<lambda>(ch', v) c'. set_channel ch' (g ch' v) c') vs c0)
    = (case map_of (rev vs) ch of None \<Rightarrow> get_channel ch c0 | Some v \<Rightarrow> g ch v)"
proof (induction vs arbitrary: c0)
  case Nil
  then show ?case by simp
next
  case (Cons x vs)
  obtain a v where x: "x = (a, v)" by (cases x)
  show ?case
    unfolding x by (simp add: Cons.IH get_set_channel map_add_def split: option.splits)
qed

text \<open>What a tween does to one channel, by its ratio.\<close>

lemma render_tween_channel:
  "get_channel ch (render_tween t tw c)
    = (case map_of (rev (vars tw)) ch of
         None \<Rightarrow> get_channel ch c
       | Some v \<Rightarrow> get_channel ch c + tween_ratio tw t * (v - get_channel ch c))"
proof (cases "t < tween_at tw")
  case True
  then show ?thesis by (simp add: render_tween_def tween_ratio_def split: option.splits)
next
  case False
  then have r: "gsap_ease (ease tw) (tween_fraction tw t) = tween_ratio tw t"
    by (simp add: tween_ratio_def)
  show ?thesis
    using False fold_vars_channel
      [of ch "\<lambda>ch' v. get_channel ch' c + tween_ratio tw t * (v - get_channel ch' c)"
          "vars tw" c]
    by (simp add: render_tween_def r)
qed

text \<open>
  A timeline of tweens that all last renders every channel continuously in the time,
  also where one tween ends and the next begins.
\<close>

lemma render_timeline_continuous:
  assumes "\<forall>tw \<in> set tws. 0 < tween_duration tw"
    and "\<And>ch. continuous_on UNIV (\<lambda>t. get_channel ch (cf t))"
  shows "continuous_on UNIV (\<lambda>t. get_channel ch (render_timeline tws t (cf t)))"
  using assms
proof (induction tws arbitrary: cf ch)
  case Nil
  then show ?case by (simp add: render_timeline_def)
next
  case (Cons tw tws)
  have d: "0 < tween_duration tw" and rest: "\<forall>tw \<in> set tws. 0 < tween_duration tw"
    using Cons.prems(1) by simp_all
  have step: "continuous_on UNIV (\<lambda>t. get_channel ch' (render_tween t tw (cf t)))" for ch'
    unfolding render_tween_channel
    by (cases "map_of (rev (vars tw)) ch'")
      (auto intro!: continuous_intros Cons.prems(2) tween_ratio_continuous [OF d])
  have "continuous_on UNIV
      (\<lambda>t. get_channel ch (render_timeline tws t (render_tween t tw (cf t))))"
    by (rule Cons.IH [OF rest]) (rule step)
  then show ?case by (simp add: render_timeline_def)
qed

lemma shipped_pose_continuous:
  "isCont (\<lambda>p. get_channel ch (render_timeline (build_timeline SCENE_TIMELINE 0)
                  (playhead (build_timeline SCENE_TIMELINE 0) p) c)) q"
proof -
  have d: "\<forall>tw \<in> set (build_timeline SCENE_TIMELINE 0). 0 < tween_duration tw"
    unfolding shipped_tweens by simp
  have "continuous_on UNIV
      (\<lambda>t. get_channel ch (render_timeline (build_timeline SCENE_TIMELINE 0) t c))"
    by (rule render_timeline_continuous [OF d]) simp
  then have "continuous_on UNIV
      (\<lambda>p. get_channel ch (render_timeline (build_timeline SCENE_TIMELINE 0) (p * 6.8) c))"
    by (rule continuous_on_compose2) (simp_all add: continuous_intros)
  then have "isCont
      (\<lambda>p. get_channel ch (render_timeline (build_timeline SCENE_TIMELINE 0) (p * 6.8) c)) q"
    by (simp add: continuous_on_eq_continuous_at)
  then show ?thesis by (simp only: shipped_playhead)
qed

text \<open>
  The loop of the controller reads only the end keyframes: replacing every start
  keyframe leaves the timeline as it is. The pose is continuous because each tween
  starts from the value the camera has, and at a segment boundary it is in general not
  the shared keyframe: at progress \<open>0.2\<close> the second tween is already on its way.
\<close>

lemma build_timeline_ignores_camera_start:
  "build_timeline (map (camera_start_update f) scenes) cum = build_timeline scenes cum"
  by (induction scenes arbitrary: cum) (simp_all add: scene_tweens_def Let_def)

lemma pose_at_first_boundary:
  "cam_position (render_timeline (build_timeline SCENE_TIMELINE 0)
      (playhead (build_timeline SCENE_TIMELINE 0) 0.2) c) = (0, 0.00256, 4.97184)"
  unfolding shipped_playhead unfolding shipped_tweens by (simp add: render_simps)

text \<open>
  Claim C7. In the shipped timeline the end keyframe of every segment equals the start
  keyframe of the next one, position, rotation and field of view, and the two segments
  meet at one progress value. Every channel of the rendered camera pose, as a function of
  the progress, is continuous at that boundary, and indeed at every progress value.
\<close>

theorem shipped_boundary_keyframes_shared:
  assumes "i + 1 < length SCENE_TIMELINE"
  shows "camera_end (SCENE_TIMELINE ! i) = camera_start (SCENE_TIMELINE ! (i + 1))
    \<and> scrollEnd (SCENE_TIMELINE ! i) = scrollStart (SCENE_TIMELINE ! (i + 1))
    \<and> isCont (\<lambda>p. get_channel ch (render_timeline (build_timeline SCENE_TIMELINE 0)
                    (playhead (build_timeline SCENE_TIMELINE 0) p) c))
         (scrollEnd (SCENE_TIMELINE ! i))
    \<and> (\<forall>q. isCont (\<lambda>p. get_channel ch (render_timeline (build_timeline SCENE_TIMELINE 0)
                          (playhead (build_timeline SCENE_TIMELINE 0) p) c)) q)"
proof -
  from assms have "i = 0 \<or> i = 1 \<or> i = 2 \<or> i = 3"
    by (simp add: SCENE_TIMELINE_def) arith
  then have k: "camera_end (SCENE_TIMELINE ! i) = camera_start (SCENE_TIMELINE ! (i + 1))"
    "scrollEnd (SCENE_TIMELINE ! i) = scrollStart (SCENE_TIMELINE ! (i + 1))"
    by (elim disjE;
        simp add: SCENE_TIMELINE_nth scene_hero_def scene_gesture_flow_def
          scene_technology_def scene_impact_def scene_closing_def)+
  show ?thesis by (intro conjI allI k shipped_pose_continuous)
qed

theorem shipped_boundary_keyframes_shared_witness:
  "(1::nat) + 1 < length SCENE_TIMELINE
    \<and> camera_end (SCENE_TIMELINE ! 1) = camera_start (SCENE_TIMELINE ! (1 + 1))
    \<and> scrollEnd (SCENE_TIMELINE ! 1) = scrollStart (SCENE_TIMELINE ! (1 + 1))
    \<and> isCont (\<lambda>p. get_channel PosZ (render_timeline (build_timeline SCENE_TIMELINE 0)
                    (playhead (build_timeline SCENE_TIMELINE 0) p) page_camera))
         (scrollEnd (SCENE_TIMELINE ! 1))"
proof -
  have h: "(1::nat) + 1 < length SCENE_TIMELINE" by (simp add: SCENE_TIMELINE_def)
  show ?thesis
    using h shipped_boundary_keyframes_shared [OF h, of PosZ page_camera]
    by (elim conjE) (intro conjI; assumption)
qed

text \<open>
  Claim C2. At progress \<open>1\<close> the controller's scan finds no segment of the shipped
  timeline, so scrolling from the top straight to the bottom reports scene \<open>1\<close> and then
  nothing, where the legacy hook reports \<open>1\<close> and then \<open>5\<close>. The rest of the claim holds:
  every interior boundary belongs to the segment that starts there, and at progress \<open>1\<close>
  the camera stands at the end keyframe of the last segment.
\<close>

theorem progress_one_reports_no_scene:
  "currentScene SCENE_TIMELINE 1 = -1
    \<and> calls (run SCENE_TIMELINE True [0, 1] (mount SCENE_TIMELINE (Some page_camera))) = [1]
    \<and> calls (legacy_run True [0, 1] (legacy_mount (Some page_camera))) = [1, 5]
    \<and> currentScene SCENE_TIMELINE 0.2 = 1 \<and> currentScene SCENE_TIMELINE 0.5 = 2
    \<and> currentScene SCENE_TIMELINE 0.7 = 3 \<and> currentScene SCENE_TIMELINE 0.9 = 4
    \<and> camera (run SCENE_TIMELINE True [1] (mount SCENE_TIMELINE (Some page_camera)))
        = Some (page_camera\<lparr>cam_position := position (camera_end (last SCENE_TIMELINE)),
                            cam_rotation := rotation (camera_end (last SCENE_TIMELINE))\<rparr>)"
proof -
  have a: "currentScene SCENE_TIMELINE 1 = -1"
    "currentScene SCENE_TIMELINE 0.2 = 1" "currentScene SCENE_TIMELINE 0.5 = 2"
    "currentScene SCENE_TIMELINE 0.7 = 3" "currentScene SCENE_TIMELINE 0.9 = 4"
    by (simp_all add: currentScene_shipped)
  have b: "calls (run SCENE_TIMELINE True [0, 1] (mount SCENE_TIMELINE (Some page_camera))) = [1]"
    "calls (legacy_run True [0, 1] (legacy_mount (Some page_camera))) = [1, 5]"
    by (simp_all add: currentScene_shipped mounted_simps)
  have l: "camera_end (last SCENE_TIMELINE) = keyframe (0, 0.3, 4.5) (0, 0, 0)"
    by (simp add: SCENE_TIMELINE_def scene_closing_def)
  have c: "camera (run SCENE_TIMELINE True [1] (mount SCENE_TIMELINE (Some page_camera)))
        = Some (page_camera\<lparr>cam_position := position (camera_end (last SCENE_TIMELINE)),
                            cam_rotation := rotation (camera_end (last SCENE_TIMELINE))\<rparr>)"
    unfolding l
    by (simp add: run_def mount_def notify_def useCameraController_effect_def shipped_playhead
        shipped_boundary_poses keyframe_def)
  from a b c show ?thesis by simp
qed

end
